theory Spec2Isabelle
  imports Main
begin

section \<open>The annotation store of the flask-jsondb example (openlimedb.py)\<close>

text \<open>
  The module keeps a Python list of JSON records in memory, mirrors it in one JSON file,
  and offers create, update and delete by \<open>id\<close>. The embedding below follows
  \<^verbatim>\<open>class DB\<close> and the POST handler line by line. Python objects have identity:
  a record passed to the store is stored by reference and mutated in place, so records
  live in a heap and the collection is a list of addresses.
\<close>

subsection \<open>JSON values\<close>

text \<open>
  The values \<^verbatim>\<open>json.load\<close> and \<^verbatim>\<open>request.json\<close> produce. A string is a list of
  characters with code points below 256. The store never computes with a float, it only
  carries and prints it, so a float is held as the text Python's \<^verbatim>\<open>repr\<close> prints for
  it. A dict keeps its keys in insertion order.
\<close>

datatype json =
    JNull
  | JBool bool
  | JInt int
  | JFloat string
  | JStr string
  | JArr "json list"
  | JObj "(string \<times> json) list"

datatype py_error =
    KeyError
  | TypeError
  | AttributeError
  | FileNotFoundError
  | PermissionError
  | JSONDecodeError
  | BadRequest

subsection \<open>Subscripting with a string key\<close>

text \<open>
  \<^verbatim>\<open>obj[k]\<close> for a string \<open>k\<close>: a dict looks the key up and raises KeyError when it
  is absent; every other JSON value (list, str, number, bool, None) raises TypeError.
\<close>

definition getitem :: "json \<Rightarrow> string \<Rightarrow> py_error + json" where
  "getitem obj k =
     (case obj of
        JObj kvs \<Rightarrow> (case map_of kvs k of None \<Rightarrow> Inl KeyError | Some v \<Rightarrow> Inr v)
      | _ \<Rightarrow> Inl TypeError)"

text \<open>
  \<^verbatim>\<open>d[k] = v\<close> on a dict: an existing key keeps its position and takes the new value,
  a new key goes to the end.
\<close>

fun dict_set :: "string \<Rightarrow> json \<Rightarrow> (string \<times> json) list \<Rightarrow> (string \<times> json) list" where
  "dict_set k v [] = [(k, v)]"
| "dict_set k v ((k', v') # kvs) =
     (if k' = k then (k, v) # kvs else (k', v') # dict_set k v kvs)"

definition setitem :: "json \<Rightarrow> string \<Rightarrow> json \<Rightarrow> py_error + json" where
  "setitem obj k v =
     (case obj of
        JObj kvs \<Rightarrow> Inr (JObj (dict_set k v kvs))
      | _ \<Rightarrow> Inl TypeError)"

subsection \<open>The builtin \<^verbatim>\<open>str\<close>\<close>

fun str_nat :: "nat \<Rightarrow> string" where
  "str_nat n =
     (if n < 10 then [''0123456789'' ! n]
      else str_nat (n div 10) @ [''0123456789'' ! (n mod 10)])"

declare str_nat.simps [simp del]

definition str_int :: "int \<Rightarrow> string" where
  "str_int n = (if n < 0 then CHR ''-'' # str_nat (nat (- n)) else str_nat (nat n))"

text \<open>
  \<^verbatim>\<open>repr\<close> of a string. Among the code points below 256 Python prints 32 to 126 and
  161 to 255 except 173 as they are; backslash and the chosen quote get a backslash; tab,
  newline and carriage return have their letter; the rest is \<^verbatim>\<open>\xhh\<close>.
\<close>

definition printable :: "char \<Rightarrow> bool" where
  "printable c =
     (let n = (of_char c :: nat) in (32 \<le> n \<and> n < 127) \<or> (161 \<le> n \<and> n \<noteq> 173))"

definition hex2 :: "char \<Rightarrow> string" where
  "hex2 c =
     (let n = (of_char c :: nat)
      in [''0123456789abcdef'' ! (n div 16), ''0123456789abcdef'' ! (n mod 16)])"

definition repr_char :: "char \<Rightarrow> char \<Rightarrow> string" where
  "repr_char q c =
     (if c = q \<or> c = CHR 0x5C then [CHR 0x5C, c]
      else if c = CHR 0x09 then [CHR 0x5C, CHR ''t'']
      else if c = CHR 0x0A then [CHR 0x5C, CHR ''n'']
      else if c = CHR 0x0D then [CHR 0x5C, CHR ''r'']
      else if printable c then [c]
      else [CHR 0x5C, CHR ''x''] @ hex2 c)"

definition repr_str :: "string \<Rightarrow> string" where
  "repr_str s =
     (let q = (if CHR 0x27 \<in> set s \<and> CHR 0x22 \<notin> set s then CHR 0x22 else CHR 0x27)
      in [q] @ concat (map (repr_char q) s) @ [q])"

fun join :: "string \<Rightarrow> string list \<Rightarrow> string" where
  "join sep [] = []"
| "join sep [x] = x"
| "join sep (x # y # zs) = x @ sep @ join sep (y # zs)"

primrec py_repr :: "json \<Rightarrow> string" where
  "py_repr JNull = ''None''"
| "py_repr (JBool b) = (if b then ''True'' else ''False'')"
| "py_repr (JInt n) = str_int n"
| "py_repr (JFloat r) = r"
| "py_repr (JStr s) = repr_str s"
| "py_repr (JArr xs) = ''['' @ join '', '' (map py_repr xs) @ '']''"
| "py_repr (JObj kvs) =
     ''{'' @ join '', '' (map (\<lambda>(k, r). repr_str k @ '': '' @ r) (map (map_prod id py_repr) kvs)) @ ''}''"

text \<open>\<^verbatim>\<open>str(v)\<close>: a string is itself, everything else prints as its \<^verbatim>\<open>repr\<close>.\<close>

definition py_str :: "json \<Rightarrow> string" where
  "py_str v = (case v of JStr s \<Rightarrow> s | _ \<Rightarrow> py_repr v)"

subsection \<open>The heap, the file system and the JSON codec\<close>

text \<open>
  Every top-level Python object (a request body, an element of the collection) has an
  address; \<open>heap\<close> gives the current value of the object at an address and
  \<open>next_addr\<close> is the first address no object has been created at. What lies inside a
  record is held by value: the store never mutates it.
\<close>

type_synonym addr = nat

text \<open>
  What \<^verbatim>\<open>open\<close> finds at a path: nothing (in a directory where a file can be
  created), a regular file with its text, or something that cannot be opened (no
  permission, a directory).
\<close>

datatype fnode = NoEntry | Regular string | Denied

text \<open>
  \<^verbatim>\<open>json.dump(obj, f, indent=2)\<close> and \<^verbatim>\<open>json.load(f)\<close> belong to Python's
  library. They are taken as parameters: \<open>dumps\<close> gives the text written for a value,
  \<open>loads\<close> the value parsed from a text, \<open>None\<close> when the decoder raises
  JSONDecodeError.
\<close>

record codec =
  dumps :: "json \<Rightarrow> string"
  loads :: "string \<Rightarrow> json option"

text \<open>
  \<^verbatim>\<open>self.db\<close> is whatever \<^verbatim>\<open>json.load\<close> returned: a list of objects, or, when the
  file holds valid JSON that is not an array, some other value.
\<close>

datatype dbval =
    PyList "addr list"
  | PyDict "(string \<times> json) list"
  | PyStr string
  | PyInt int
  | PyFloat string
  | PyBool bool
  | PyNone

record world =
  heap :: "addr \<Rightarrow> json"
  next_addr :: addr
  files :: "string \<Rightarrow> fnode"

record DB = world +
  dbname :: string
  db :: dbval

record response =
  status :: string
  message :: string

text \<open>The JSON value \<^verbatim>\<open>self.db\<close> denotes: what \<^verbatim>\<open>json.dump\<close> and \<^verbatim>\<open>jsonify\<close> see.\<close>

definition db_value :: "DB \<Rightarrow> json" where
  "db_value s =
     (case db s of
        PyList rs \<Rightarrow> JArr (map (heap s) rs)
      | PyDict kvs \<Rightarrow> JObj kvs
      | PyStr t \<Rightarrow> JStr t
      | PyInt n \<Rightarrow> JInt n
      | PyFloat r \<Rightarrow> JFloat r
      | PyBool b \<Rightarrow> JBool b
      | PyNone \<Rightarrow> JNull)"

subsection \<open>\<^verbatim>\<open>DB.__init__\<close>\<close>

text \<open>The elements of a freshly parsed list are new objects, at consecutive new addresses.\<close>

fun alloc_list :: "(addr \<Rightarrow> json) \<Rightarrow> addr \<Rightarrow> json list \<Rightarrow> (addr \<Rightarrow> json)" where
  "alloc_list h n [] = h"
| "alloc_list h n (x # xs) = alloc_list (h(n := x)) (Suc n) xs"

definition adopt :: "'a world_scheme \<Rightarrow> string \<Rightarrow> json \<Rightarrow> DB" where
  "adopt w name v =
     (case v of
        JArr xs \<Rightarrow>
          \<lparr>heap = alloc_list (heap w) (next_addr w) xs,
           next_addr = next_addr w + length xs,
           files = files w, dbname = name,
           db = PyList [next_addr w ..< next_addr w + length xs]\<rparr>
      | JObj kvs \<Rightarrow>
          \<lparr>heap = heap w, next_addr = next_addr w, files = files w, dbname = name, db = PyDict kvs\<rparr>
      | JStr t \<Rightarrow>
          \<lparr>heap = heap w, next_addr = next_addr w, files = files w, dbname = name, db = PyStr t\<rparr>
      | JInt n \<Rightarrow>
          \<lparr>heap = heap w, next_addr = next_addr w, files = files w, dbname = name, db = PyInt n\<rparr>
      | JFloat r \<Rightarrow>
          \<lparr>heap = heap w, next_addr = next_addr w, files = files w, dbname = name, db = PyFloat r\<rparr>
      | JBool b \<Rightarrow>
          \<lparr>heap = heap w, next_addr = next_addr w, files = files w, dbname = name, db = PyBool b\<rparr>
      | JNull \<Rightarrow>
          \<lparr>heap = heap w, next_addr = next_addr w, files = files w, dbname = name, db = PyNone\<rparr>)"

text \<open>\<^verbatim>\<open>open(path, 'r')\<close> followed by reading the text, and \<^verbatim>\<open>json.load\<close> on it.\<close>

definition open_read :: "'a world_scheme \<Rightarrow> string \<Rightarrow> py_error + string" where
  "open_read w path =
     (case files w path of
        NoEntry \<Rightarrow> Inl FileNotFoundError
      | Denied \<Rightarrow> Inl PermissionError
      | Regular txt \<Rightarrow> Inr txt)"

definition json_load :: "codec \<Rightarrow> string \<Rightarrow> py_error + json" where
  "json_load c txt = (case loads c txt of None \<Rightarrow> Inl JSONDecodeError | Some v \<Rightarrow> Inr v)"

text \<open>
  \<^verbatim>\<open>
  def __init__(self, dbname):
      self.dbname = dbname
      try:
          with open(self.dbname, 'r') as f:
              self.db = json.load(f)
      except (FileNotFoundError, json.JSONDecodeError):
          self.db = []
  \<close>
  Only the two listed exceptions are caught; any other leaves the constructor.
\<close>

definition DB_init :: "codec \<Rightarrow> 'a world_scheme \<Rightarrow> string \<Rightarrow> py_error + DB" where
  "DB_init c w name =
     (case (case open_read w name of Inl e \<Rightarrow> Inl e | Inr txt \<Rightarrow> json_load c txt) of
        Inr v \<Rightarrow> Inr (adopt w name v)
      | Inl e \<Rightarrow>
          if e = FileNotFoundError \<or> e = JSONDecodeError then Inr (adopt w name (JArr []))
          else Inl e)"

subsection \<open>\<^verbatim>\<open>dbwrite\<close> and \<^verbatim>\<open>dbread\<close>\<close>

text \<open>
  \<^verbatim>\<open>
  def dbwrite(self):
      with open(self.dbname, 'w') as f:
          json.dump(self.db, f, indent=2)
  \<close>
  An operation returns the state it leaves behind together with either the exception it
  raised or its result, since what was mutated before a raise stays mutated.
\<close>

definition dbwrite :: "codec \<Rightarrow> DB \<Rightarrow> (py_error + unit) \<times> DB" where
  "dbwrite c s =
     (case files s (dbname s) of
        Denied \<Rightarrow> (Inl PermissionError, s)
      | _ \<Rightarrow> (Inr (), s\<lparr>files := (files s)(dbname s := Regular (dumps c (db_value s)))\<rparr>))"

definition dbread :: "DB \<Rightarrow> dbval" where
  "dbread s = db s"

subsection \<open>The scan for an id\<close>

text \<open>
  \<^verbatim>\<open>
  idx = -1
  for i, record in enumerate(self.db):
      if record['id'] == str(id):
          idx = i
          break
  \<close>
  \<open>find_idx t vs i\<close> runs the loop over the remaining values \<open>vs\<close>, the first of them
  at position \<open>i\<close>, with \<open>t\<close> the value of \<^verbatim>\<open>str(id)\<close>. A value of another type is never
  equal to a string.
\<close>

fun find_idx :: "string \<Rightarrow> json list \<Rightarrow> nat \<Rightarrow> py_error + int" where
  "find_idx t [] i = Inr (- 1)"
| "find_idx t (r # rs) i =
     (case getitem r ''id'' of
        Inl e \<Rightarrow> Inl e
      | Inr v \<Rightarrow> if v = JStr t then Inr (int i) else find_idx t rs (Suc i))"

text \<open>
  The same loop when \<^verbatim>\<open>self.db\<close> is not a list. A dict yields its keys and a string
  its characters, all strings, and subscripting the first of them with \<^verbatim>\<open>'id'\<close> raises
  TypeError; an empty dict or string ends the loop with \<open>idx = -1\<close>; nothing else can be
  enumerated.
\<close>

fun find_idx_other :: "dbval \<Rightarrow> py_error + int" where
  "find_idx_other (PyDict kvs) = (if kvs = [] then Inr (- 1) else Inl TypeError)"
| "find_idx_other (PyStr t) = (if t = [] then Inr (- 1) else Inl TypeError)"
| "find_idx_other _ = Inl TypeError"

definition scan :: "DB \<Rightarrow> json \<Rightarrow> py_error + int" where
  "scan s ident =
     (case db s of
        PyList rs \<Rightarrow> find_idx (py_str ident) (map (heap s) rs) 0
      | other \<Rightarrow> find_idx_other other)"

subsection \<open>\<^verbatim>\<open>dbcreate\<close>, \<^verbatim>\<open>dbupdate\<close>, \<^verbatim>\<open>dbdelete\<close>\<close>

definition created :: response where
  "created = \<lparr>status = ''ok'', message = ''Annotation created successfully''\<rparr>"

definition updated :: response where
  "updated = \<lparr>status = ''ok'', message = ''Annotation updated successfully''\<rparr>"

definition update_failed :: response where
  "update_failed = \<lparr>status = ''err'', message = ''Error in updating annotation''\<rparr>"

definition deleted :: response where
  "deleted = \<lparr>status = ''ok'', message = ''Annotation deleted successfully''\<rparr>"

definition delete_failed :: response where
  "delete_failed = \<lparr>status = ''err'', message = ''Error in deleting annotation''\<rparr>"

text \<open>
  \<^verbatim>\<open>
  def dbcreate(self, item):
      item['id'] = str(item['id'])
      self.db.append(item)
      self.dbwrite()
      return {'status': 'ok', 'message': 'Annotation created successfully'}
  \<close>
  \<open>item\<close> is the address of the caller's object. Only a list has \<^verbatim>\<open>append\<close>.
\<close>

definition dbcreate :: "codec \<Rightarrow> DB \<Rightarrow> addr \<Rightarrow> (py_error + response) \<times> DB" where
  "dbcreate c s item =
     (case getitem (heap s item) ''id'' of
        Inl e \<Rightarrow> (Inl e, s)
      | Inr v \<Rightarrow>
          (case setitem (heap s item) ''id'' (JStr (py_str v)) of
             Inl e \<Rightarrow> (Inl e, s)
           | Inr obj \<Rightarrow>
               (let s1 = s\<lparr>heap := (heap s)(item := obj)\<rparr> in
                case db s1 of
                  PyList rs \<Rightarrow>
                    (let s2 = s1\<lparr>db := PyList (rs @ [item])\<rparr> in
                     case dbwrite c s2 of
                       (Inl e, s3) \<Rightarrow> (Inl e, s3)
                     | (Inr _, s3) \<Rightarrow> (Inr created, s3))
                | _ \<Rightarrow> (Inl AttributeError, s1))))"

text \<open>
  \<^verbatim>\<open>
  def dbupdate(self, id, item):
      (the scan)
      if idx >= 0:
          item['id'] = str(id)
          self.db[idx] = item
          self.dbwrite()
          return {'status': 'ok', 'message': 'Annotation updated successfully'}
      else:
          return {'status': 'err', 'message': 'Error in updating annotation'}
  \<close>
  The scan ends with \<open>idx \<ge> 0\<close> only over a list, so the branch for another
  \<^verbatim>\<open>self.db\<close> is never taken with \<open>idx \<ge> 0\<close>; it is given the TypeError of the
  failed scan.
\<close>

definition dbupdate :: "codec \<Rightarrow> DB \<Rightarrow> json \<Rightarrow> addr \<Rightarrow> (py_error + response) \<times> DB" where
  "dbupdate c s ident item =
     (case scan s ident of
        Inl e \<Rightarrow> (Inl e, s)
      | Inr idx \<Rightarrow>
          if idx \<ge> 0 then
            (case setitem (heap s item) ''id'' (JStr (py_str ident)) of
               Inl e \<Rightarrow> (Inl e, s)
             | Inr obj \<Rightarrow>
                 (let s1 = s\<lparr>heap := (heap s)(item := obj)\<rparr> in
                  case db s1 of
                    PyList rs \<Rightarrow>
                      (let s2 = s1\<lparr>db := PyList (rs[nat idx := item])\<rparr> in
                       case dbwrite c s2 of
                         (Inl e, s3) \<Rightarrow> (Inl e, s3)
                       | (Inr _, s3) \<Rightarrow> (Inr updated, s3))
                  | _ \<Rightarrow> (Inl TypeError, s1)))
          else (Inr update_failed, s))"

text \<open>
  \<^verbatim>\<open>
  def dbdelete(self, id):
      (the scan)
      if idx >= 0:
          self.db.pop(idx)
          self.dbwrite()
          return {'status': 'ok', 'message': 'Annotation deleted successfully'}
      else:
          return {'status': 'err', 'message': 'Error in deleting annotation'}
  \<close>
\<close>

definition dbdelete :: "codec \<Rightarrow> DB \<Rightarrow> json \<Rightarrow> (py_error + response) \<times> DB" where
  "dbdelete c s ident =
     (case scan s ident of
        Inl e \<Rightarrow> (Inl e, s)
      | Inr idx \<Rightarrow>
          if idx \<ge> 0 then
            (case db s of
               PyList rs \<Rightarrow>
                 (let s2 = s\<lparr>db := PyList (take (nat idx) rs @ drop (Suc (nat idx)) rs)\<rparr> in
                  case dbwrite c s2 of
                    (Inl e, s3) \<Rightarrow> (Inl e, s3)
                  | (Inr _, s3) \<Rightarrow> (Inr deleted, s3))
             | _ \<Rightarrow> (Inl TypeError, s))
          else (Inr delete_failed, s))"

subsection \<open>The POST handler\<close>




subsection \<open>Sequences of operations\<close>

datatype op = Create addr | Update json addr | Delete json

fun apply_op :: "codec \<Rightarrow> DB \<Rightarrow> op \<Rightarrow> (py_error + response) \<times> DB" where
  "apply_op c s (Create item) = dbcreate c s item"
| "apply_op c s (Update ident item) = dbupdate c s ident item"
| "apply_op c s (Delete ident) = dbdelete c s ident"

text \<open>The server goes on after an exception, with whatever state the operation left.\<close>

fun run :: "codec \<Rightarrow> DB \<Rightarrow> op list \<Rightarrow> DB" where
  "run c s [] = s"
| "run c s (x # xs) = run c (snd (apply_op c s x)) xs"

subsection \<open>The ids a collection carries\<close>

text \<open>
  What \<^verbatim>\<open>record['id']\<close> gives for each element of the collection, in order; the two
  properties of the data model, that every id is a string and that no id occurs twice;
  and the operations that bring no duplicate: a create whose record has an id that no
  stored record carries once it is made a string, and an update whose record is not an
  object the collection already holds.
\<close>

definition record_ids :: "DB \<Rightarrow> (py_error + json) list" where
  "record_ids s =
     (case db s of PyList rs \<Rightarrow> map (\<lambda>r. getitem (heap s r) ''id'') rs | _ \<Rightarrow> [])"

fun is_str_id :: "py_error + json \<Rightarrow> bool" where
  "is_str_id (Inr (JStr t)) = True"
| "is_str_id _ = False"

definition string_ids :: "DB \<Rightarrow> bool" where
  "string_ids s = list_all is_str_id (record_ids s)"

definition unique_ids :: "DB \<Rightarrow> bool" where
  "unique_ids s = distinct (record_ids s)"

fun admissible :: "DB \<Rightarrow> op \<Rightarrow> bool" where
  "admissible s (Create item) =
     (case getitem (heap s item) ''id'' of
        Inl e \<Rightarrow> True
      | Inr v \<Rightarrow> Inr (JStr (py_str v)) \<notin> set (record_ids s))"
| "admissible s (Update ident item) =
     (case db s of PyList rs \<Rightarrow> item \<notin> set rs | _ \<Rightarrow> True)"
| "admissible s (Delete ident) = True"

fun careful :: "codec \<Rightarrow> DB \<Rightarrow> op list \<Rightarrow> bool" where
  "careful c s [] = True"
| "careful c s (x # xs) = (admissible s x \<and> careful c (snd (apply_op c s x)) xs)"

text \<open>The collection is a list and every id in it is a string.\<close>

definition list_of_string_ids :: "DB \<Rightarrow> bool" where
  "list_of_string_ids s = (case db s of PyList rs \<Rightarrow> string_ids s | _ \<Rightarrow> False)"

subsection \<open>A sample store\<close>

text \<open>
  A codec that writes a value as Python prints it and reads that text back for the values
  listed, and a store holding two records, with three more objects a caller has built.
\<close>

definition sample_codec :: "json list \<Rightarrow> codec" where
  "sample_codec known =
     \<lparr>dumps = py_repr, loads = (\<lambda>txt. find (\<lambda>v. py_repr v = txt) known)\<rparr>"

definition sample_db :: DB where
  "sample_db =
     \<lparr>heap = (\<lambda>_. JNull)
        (0 := JObj [(''id'', JStr ''1''), (''label'', JStr ''cat'')],
         1 := JObj [(''id'', JStr ''2''), (''label'', JStr ''owl'')],
         2 := JObj [(''label'', JStr ''dog'')],
         3 := JObj [(''id'', JInt 3), (''label'', JStr ''eel'')],
         4 := JObj [(''id'', JStr ''1''), (''label'', JStr ''fox'')]),
      next_addr = 5,
      files = (\<lambda>_. NoEntry),
      dbname = ''anno.json'',
      db = PyList [0, 1]\<rparr>"

section \<open>Properties\<close>

subsection \<open>Dicts and the scan\<close>

lemma map_of_dict_set: "map_of (dict_set k v kvs) = (map_of kvs)(k \<mapsto> v)"
  by (induction kvs) (auto simp: fun_eq_iff)

lemma getitem_Inr_dict: "getitem obj k = Inr v \<Longrightarrow> \<exists>kvs. obj = JObj kvs \<and> map_of kvs k = Some v"
  by (auto simp: getitem_def split: json.splits option.splits)

lemma find_idx_found:
  "i < length vs \<Longrightarrow>
   \<forall>j<i. \<exists>v. getitem (vs ! j) ''id'' = Inr v \<and> v \<noteq> JStr t \<Longrightarrow>
   getitem (vs ! i) ''id'' = Inr (JStr t) \<Longrightarrow>
   find_idx t vs k = Inr (int (k + i))"
proof (induction vs arbitrary: i k)
  case Nil
  then show ?case by simp
next
  case (Cons r vs)
  show ?case
  proof (cases i)
    case 0
    with Cons.prems show ?thesis by simp
  next
    case (Suc i')
    from Cons.prems(2) Suc obtain v where v: "getitem r ''id'' = Inr v" "v \<noteq> JStr t"
      by fastforce
    have "\<forall>j<i'. \<exists>v. getitem (vs ! j) ''id'' = Inr v \<and> v \<noteq> JStr t"
      using Cons.prems(2) Suc by fastforce
    moreover have "i' < length vs" "getitem (vs ! i') ''id'' = Inr (JStr t)"
      using Cons.prems Suc by auto
    ultimately have "find_idx t vs (Suc k) = Inr (int (Suc k + i'))"
      by (intro Cons.IH) auto
    with v Suc show ?thesis by simp
  qed
qed

lemma find_idx_miss:
  "\<forall>r\<in>set vs. \<exists>v. getitem r ''id'' = Inr v \<and> v \<noteq> JStr t \<Longrightarrow> find_idx t vs k = Inr (- 1)"
  by (induction vs arbitrary: k) auto

lemma find_idx_result:
  "find_idx t vs k = Inr n \<Longrightarrow>
   (n = - 1 \<and> (\<forall>r\<in>set vs. \<exists>v. getitem r ''id'' = Inr v \<and> v \<noteq> JStr t)) \<or>
   (\<exists>i<length vs. n = int (k + i) \<and> getitem (vs ! i) ''id'' = Inr (JStr t) \<and>
      (\<forall>j<i. \<exists>v. getitem (vs ! j) ''id'' = Inr v \<and> v \<noteq> JStr t))"
proof (induction vs arbitrary: k)
  case Nil
  then show ?case by simp
next
  case (Cons r vs)
  from Cons.prems obtain v where v: "getitem r ''id'' = Inr v"
    by (auto split: sum.splits)
  show ?case
  proof (cases "v = JStr t")
    case True
    with v Cons.prems have "n = int k" by simp
    with v True show ?thesis by (intro disjI2 exI[of _ 0]) simp
  next
    case False
    with v Cons.prems have rec: "find_idx t vs (Suc k) = Inr n" by simp
    from Cons.IH[OF rec] show ?thesis
    proof
      assume "n = - 1 \<and> (\<forall>r\<in>set vs. \<exists>v. getitem r ''id'' = Inr v \<and> v \<noteq> JStr t)"
      with v False show ?thesis by auto
    next
      assume "\<exists>i<length vs. n = int (Suc k + i) \<and> getitem (vs ! i) ''id'' = Inr (JStr t) \<and>
        (\<forall>j<i. \<exists>v. getitem (vs ! j) ''id'' = Inr v \<and> v \<noteq> JStr t)"
      then obtain i where i: "i < length vs" "n = int (Suc k + i)"
        "getitem (vs ! i) ''id'' = Inr (JStr t)"
        "\<forall>j<i. \<exists>v. getitem (vs ! j) ''id'' = Inr v \<and> v \<noteq> JStr t" by blast
      have "\<forall>j<Suc i. \<exists>w. getitem ((r # vs) ! j) ''id'' = Inr w \<and> w \<noteq> JStr t"
        using i(4) v False by (auto simp: less_Suc_eq_0_disj)
      with i show ?thesis by (intro disjI2 exI[of _ "Suc i"]) simp
    qed
  qed
qed

lemma scan_found:
  assumes "db s = PyList rs" "i < length rs"
    and "\<forall>j<i. \<exists>v. getitem (heap s (rs ! j)) ''id'' = Inr v \<and> v \<noteq> JStr (py_str ident)"
    and "getitem (heap s (rs ! i)) ''id'' = Inr (JStr (py_str ident))"
  shows "scan s ident = Inr (int i)"
proof -
  have "find_idx (py_str ident) (map (heap s) rs) 0 = Inr (int (0 + i))"
    using assms by (intro find_idx_found) auto
  with assms(1) show ?thesis by (simp add: scan_def)
qed

lemma scan_miss:
  assumes "db s = PyList rs"
    and "\<forall>r\<in>set rs. \<exists>v. getitem (heap s r) ''id'' = Inr v \<and> v \<noteq> JStr (py_str ident)"
  shows "scan s ident = Inr (- 1)"
  using assms by (simp add: scan_def find_idx_miss)

subsection \<open>Writing the file\<close>

lemma db_value_files [simp]: "db_value (s\<lparr>files := f\<rparr>) = db_value s"
  by (simp add: db_value_def split: dbval.splits)

lemma dbwrite_ok:
  "files s (dbname s) \<noteq> Denied \<Longrightarrow>
   dbwrite c s = (Inr (), s\<lparr>files := (files s)(dbname s := Regular (dumps c (db_value s)))\<rparr>)"
  by (simp add: dbwrite_def split: fnode.splits)

lemma dbwrite_denied:
  "files s (dbname s) = Denied \<Longrightarrow> dbwrite c s = (Inl PermissionError, s)"
  by (simp add: dbwrite_def)

lemma map_heap_upd_other:
  "\<forall>j<length rs. j \<noteq> i \<longrightarrow> rs ! j \<noteq> item \<Longrightarrow> i < length rs \<Longrightarrow>
   map (h(item := obj)) (rs[i := item]) = (map h rs)[i := obj]"
  by (auto simp: list_eq_iff_nth_eq nth_list_update)

subsection \<open>Every way an operation can end\<close>

lemma setitem_dict: "setitem (JObj kvs) k v = Inr (JObj (dict_set k v kvs))"
  by (simp add: setitem_def)

lemma dbcreate_elim:
  assumes "dbcreate c s item = (out, s')"
  obtains
    (no_id) e where "getitem (heap s item) ''id'' = Inl e" "out = Inl e" "s' = s"
  | (no_append) kvs v where "heap s item = JObj kvs" "map_of kvs ''id'' = Some v"
      "\<forall>rs. db s \<noteq> PyList rs" "out = Inl AttributeError"
      "s' = s\<lparr>heap := (heap s)(item := JObj (dict_set ''id'' (JStr (py_str v)) kvs))\<rparr>"
  | (no_write) kvs v rs where "heap s item = JObj kvs" "map_of kvs ''id'' = Some v"
      "db s = PyList rs" "files s (dbname s) = Denied" "out = Inl PermissionError"
      "s' = s\<lparr>heap := (heap s)(item := JObj (dict_set ''id'' (JStr (py_str v)) kvs)),
              db := PyList (rs @ [item])\<rparr>"
  | (ok) kvs v rs where "heap s item = JObj kvs" "map_of kvs ''id'' = Some v"
      "db s = PyList rs" "files s (dbname s) \<noteq> Denied" "out = Inr created"
      "s' = s\<lparr>heap := (heap s)(item := JObj (dict_set ''id'' (JStr (py_str v)) kvs)),
              db := PyList (rs @ [item]),
              files := (files s)(dbname s := Regular (dumps c
                 (JArr (map ((heap s)(item := JObj (dict_set ''id'' (JStr (py_str v)) kvs)))
                    (rs @ [item])))))\<rparr>"
proof (cases "getitem (heap s item) ''id''")
  case (Inl e)
  with assms have "out = Inl e" "s' = s" by (auto simp: dbcreate_def)
  with Inl show ?thesis by (rule no_id)
next
  case (Inr v)
  then obtain kvs where kvs: "heap s item = JObj kvs" "map_of kvs ''id'' = Some v"
    using getitem_Inr_dict by blast
  define obj where "obj = JObj (dict_set ''id'' (JStr (py_str v)) kvs)"
  have si: "setitem (heap s item) ''id'' (JStr (py_str v)) = Inr obj"
    by (simp add: kvs obj_def setitem_dict)
  show ?thesis
  proof (cases "\<exists>rs. db s = PyList rs")
    case False
    with assms Inr si have "out = Inl AttributeError" "s' = s\<lparr>heap := (heap s)(item := obj)\<rparr>"
      by (auto simp: dbcreate_def Let_def split: dbval.splits)
    with kvs False show ?thesis unfolding obj_def by (intro no_append) auto
  next
    case True
    then obtain rs where rs: "db s = PyList rs" by blast
    define s2 where "s2 = s\<lparr>heap := (heap s)(item := obj), db := PyList (rs @ [item])\<rparr>"
    have step: "dbcreate c s item =
        (case dbwrite c s2 of (Inl e, s3) \<Rightarrow> (Inl e, s3) | (Inr _, s3) \<Rightarrow> (Inr created, s3))"
      using Inr si rs by (simp add: dbcreate_def Let_def s2_def)
    show ?thesis
    proof (cases "files s (dbname s) = Denied")
      case True
      then have "dbwrite c s2 = (Inl PermissionError, s2)"
        by (intro dbwrite_denied) (simp add: s2_def)
      with step assms have "out = Inl PermissionError" "s' = s2" by auto
      with kvs rs True show ?thesis unfolding s2_def obj_def by (intro no_write) auto
    next
      case False
      then have "dbwrite c s2 = (Inr (), s2\<lparr>files := (files s2)(dbname s2 := Regular (dumps c (db_value s2)))\<rparr>)"
        by (intro dbwrite_ok) (simp add: s2_def)
      with step assms have "out = Inr created"
        "s' = s2\<lparr>files := (files s2)(dbname s2 := Regular (dumps c (db_value s2)))\<rparr>" by auto
      moreover have "db_value s2 = JArr (map ((heap s)(item := obj)) (rs @ [item]))"
        by (simp add: db_value_def s2_def)
      ultimately show ?thesis using kvs rs False unfolding s2_def obj_def
        by (intro ok) auto
    qed
  qed
qed


lemma find_idx_other_result: "find_idx_other d = Inr n \<Longrightarrow> n = - 1"
  by (cases d) (auto split: if_splits)

lemma scan_elim:
  assumes "scan s ident = r"
  obtains
    (raised) e where "r = Inl e"
  | (miss) "r = Inr (- 1)"
      "\<forall>rs. db s = PyList rs \<longrightarrow>
         (\<forall>x\<in>set rs. \<exists>v. getitem (heap s x) ''id'' = Inr v \<and> v \<noteq> JStr (py_str ident))"
  | (hit) rs i where "db s = PyList rs" "i < length rs" "r = Inr (int i)"
      "getitem (heap s (rs ! i)) ''id'' = Inr (JStr (py_str ident))"
      "\<forall>j<i. \<exists>v. getitem (heap s (rs ! j)) ''id'' = Inr v \<and> v \<noteq> JStr (py_str ident)"
proof (cases r)
  case (Inl e)
  then show ?thesis by (rule raised)
next
  case (Inr n)
  show ?thesis
  proof (cases "\<exists>rs. db s = PyList rs")
    case False
    with assms Inr have "find_idx_other (db s) = Inr n"
      by (auto simp: scan_def split: dbval.splits)
    then have "n = - 1" by (rule find_idx_other_result)
    with Inr False show ?thesis by (intro miss) auto
  next
    case True
    then obtain rs where rs: "db s = PyList rs" by blast
    with assms Inr have f: "find_idx (py_str ident) (map (heap s) rs) 0 = Inr n"
      by (simp add: scan_def)
    from find_idx_result[OF f] show ?thesis
    proof
      assume "n = - 1 \<and> (\<forall>r\<in>set (map (heap s) rs). \<exists>v. getitem r ''id'' = Inr v \<and> v \<noteq> JStr (py_str ident))"
      with Inr rs show ?thesis by (intro miss) auto
    next
      assume "\<exists>i<length (map (heap s) rs). n = int (0 + i) \<and>
         getitem (map (heap s) rs ! i) ''id'' = Inr (JStr (py_str ident)) \<and>
         (\<forall>j<i. \<exists>v. getitem (map (heap s) rs ! j) ''id'' = Inr v \<and> v \<noteq> JStr (py_str ident))"
      then obtain i where i: "i < length rs" "n = int i"
        "getitem (map (heap s) rs ! i) ''id'' = Inr (JStr (py_str ident))"
        "\<forall>j<i. \<exists>v. getitem (map (heap s) rs ! j) ''id'' = Inr v \<and> v \<noteq> JStr (py_str ident)"
        by auto
      from i(1,3) have a: "getitem (heap s (rs ! i)) ''id'' = Inr (JStr (py_str ident))" by simp
      from i(1,4) have b: "\<forall>j<i. \<exists>v. getitem (heap s (rs ! j)) ''id'' = Inr v \<and> v \<noteq> JStr (py_str ident)"
        by auto
      from rs i(1) Inr i(2) a b show ?thesis by (intro hit) auto
    qed
  qed
qed

lemma dbupdate_elim:
  assumes "dbupdate c s ident item = (out, s')"
  obtains
    (raised) e where "scan s ident = Inl e" "out = Inl e" "s' = s"
  | (not_found) "scan s ident = Inr (- 1)" "out = Inr update_failed" "s' = s"
  | (bad_item) rs i where "db s = PyList rs" "i < length rs" "scan s ident = Inr (int i)"
      "\<forall>kvs. heap s item \<noteq> JObj kvs" "out = Inl TypeError" "s' = s"
  | (no_write) rs i kvs where "db s = PyList rs" "i < length rs" "scan s ident = Inr (int i)"
      "heap s item = JObj kvs" "files s (dbname s) = Denied" "out = Inl PermissionError"
      "s' = s\<lparr>heap := (heap s)(item := JObj (dict_set ''id'' (JStr (py_str ident)) kvs)),
              db := PyList (rs[i := item])\<rparr>"
  | (ok) rs i kvs where "db s = PyList rs" "i < length rs" "scan s ident = Inr (int i)"
      "heap s item = JObj kvs" "files s (dbname s) \<noteq> Denied" "out = Inr updated"
      "s' = s\<lparr>heap := (heap s)(item := JObj (dict_set ''id'' (JStr (py_str ident)) kvs)),
              db := PyList (rs[i := item]),
              files := (files s)(dbname s := Regular (dumps c
                 (JArr (map ((heap s)(item := JObj (dict_set ''id'' (JStr (py_str ident)) kvs)))
                    (rs[i := item])))))\<rparr>"
proof -
  have "scan s ident = scan s ident" by simp
  then show ?thesis
  proof (cases rule: scan_elim)
    case (raised e)
    with assms have "out = Inl e" "s' = s" by (auto simp: dbupdate_def)
    with raised show ?thesis by (intro that(1)) auto
  next
    case miss
    with assms have "out = Inr update_failed" "s' = s" by (auto simp: dbupdate_def)
    with miss show ?thesis by (intro not_found) auto
  next
    case (hit rs i)
    show ?thesis
    proof (cases "\<exists>kvs. heap s item = JObj kvs")
      case False
      then have "setitem (heap s item) ''id'' (JStr (py_str ident)) = Inl TypeError"
        by (auto simp: setitem_def split: json.splits)
      with assms hit have "out = Inl TypeError" "s' = s" by (auto simp: dbupdate_def)
      with hit False show ?thesis by (intro bad_item) auto
    next
      case True
      then obtain kvs where kvs: "heap s item = JObj kvs" by blast
      define obj where "obj = JObj (dict_set ''id'' (JStr (py_str ident)) kvs)"
      define s2 where "s2 = s\<lparr>heap := (heap s)(item := obj), db := PyList (rs[i := item])\<rparr>"
      have step: "dbupdate c s ident item =
          (case dbwrite c s2 of (Inl e, s3) \<Rightarrow> (Inl e, s3) | (Inr _, s3) \<Rightarrow> (Inr updated, s3))"
        using hit kvs by (simp add: dbupdate_def Let_def s2_def setitem_dict obj_def)
      show ?thesis
      proof (cases "files s (dbname s) = Denied")
        case True
        then have "dbwrite c s2 = (Inl PermissionError, s2)"
          by (intro dbwrite_denied) (simp add: s2_def)
        with step assms have "out = Inl PermissionError" "s' = s2" by auto
        with kvs hit True show ?thesis unfolding s2_def obj_def by (intro no_write) auto
      next
        case False
        then have "dbwrite c s2 = (Inr (), s2\<lparr>files := (files s2)(dbname s2 := Regular (dumps c (db_value s2)))\<rparr>)"
          by (intro dbwrite_ok) (simp add: s2_def)
        with step assms have "out = Inr updated"
          "s' = s2\<lparr>files := (files s2)(dbname s2 := Regular (dumps c (db_value s2)))\<rparr>" by auto
        moreover have "db_value s2 = JArr (map ((heap s)(item := obj)) (rs[i := item]))"
          by (simp add: db_value_def s2_def)
        ultimately show ?thesis using kvs hit False unfolding s2_def obj_def
          by (intro ok) auto
      qed
    qed
  qed
qed

lemma dbdelete_elim:
  assumes "dbdelete c s ident = (out, s')"
  obtains
    (raised) e where "scan s ident = Inl e" "out = Inl e" "s' = s"
  | (not_found) "scan s ident = Inr (- 1)" "out = Inr delete_failed" "s' = s"
  | (no_write) rs i where "db s = PyList rs" "i < length rs" "scan s ident = Inr (int i)"
      "files s (dbname s) = Denied" "out = Inl PermissionError"
      "s' = s\<lparr>db := PyList (take i rs @ drop (Suc i) rs)\<rparr>"
  | (ok) rs i where "db s = PyList rs" "i < length rs" "scan s ident = Inr (int i)"
      "files s (dbname s) \<noteq> Denied" "out = Inr deleted"
      "s' = s\<lparr>db := PyList (take i rs @ drop (Suc i) rs),
              files := (files s)(dbname s := Regular (dumps c
                 (JArr (map (heap s) (take i rs @ drop (Suc i) rs)))))\<rparr>"
proof -
  have "scan s ident = scan s ident" by simp
  then show ?thesis
  proof (cases rule: scan_elim)
    case (raised e)
    with assms have "out = Inl e" "s' = s" by (auto simp: dbdelete_def)
    with raised show ?thesis by (intro that(1)) auto
  next
    case miss
    with assms have "out = Inr delete_failed" "s' = s" by (auto simp: dbdelete_def)
    with miss show ?thesis by (intro not_found) auto
  next
    case (hit rs i)
    define s2 where "s2 = s\<lparr>db := PyList (take i rs @ drop (Suc i) rs)\<rparr>"
    have step: "dbdelete c s ident =
        (case dbwrite c s2 of (Inl e, s3) \<Rightarrow> (Inl e, s3) | (Inr _, s3) \<Rightarrow> (Inr deleted, s3))"
      using hit by (simp add: dbdelete_def Let_def s2_def)
    show ?thesis
    proof (cases "files s (dbname s) = Denied")
      case True
      then have "dbwrite c s2 = (Inl PermissionError, s2)"
        by (intro dbwrite_denied) (simp add: s2_def)
      with step assms have "out = Inl PermissionError" "s' = s2" by auto
      with hit True show ?thesis unfolding s2_def by (intro no_write) auto
    next
      case False
      then have "dbwrite c s2 = (Inr (), s2\<lparr>files := (files s2)(dbname s2 := Regular (dumps c (db_value s2)))\<rparr>)"
        by (intro dbwrite_ok) (simp add: s2_def)
      with step assms have "out = Inr deleted"
        "s' = s2\<lparr>files := (files s2)(dbname s2 := Regular (dumps c (db_value s2)))\<rparr>" by auto
      moreover have "db_value s2 = JArr (map (heap s) (take i rs @ drop (Suc i) rs))"
        by (simp add: db_value_def s2_def)
      ultimately show ?thesis using hit False unfolding s2_def
        by (intro ok) auto
    qed
  qed
qed

subsection \<open>\<^verbatim>\<open>dbupdate\<close>\<close>

text \<open>
  C1. Let the collection be the list \<open>rs\<close> and let position \<open>i\<close> hold the first
  record whose \<open>id\<close> equals \<open>str(id)\<close> (the records before it carry other ids). Given
  a dict \<open>item\<close> and a backing file that can be written, \<open>dbupdate\<close> returns the ok
  status and the state it leaves is the old one with three changes: the object \<open>item\<close>
  has its \<open>id\<close> set to \<open>str(id)\<close>, position \<open>i\<close> of the list holds \<open>item\<close>, and
  the file holds the dump of this collection. So the list has the same length, every
  other position holds the object it held and no other object is modified. Provided
  \<open>item\<close> is not itself the object stored at another position, the collection shows the
  old values with the one at position \<open>i\<close> replaced.
\<close>

theorem dbupdate_replaces_first_match:
  assumes "db s = PyList rs"
    and "i < length rs"
    and "\<forall>j<i. \<exists>v. getitem (heap s (rs ! j)) ''id'' = Inr v \<and> v \<noteq> JStr (py_str ident)"
    and "getitem (heap s (rs ! i)) ''id'' = Inr (JStr (py_str ident))"
    and "heap s item = JObj kvs"
    and "files s (dbname s) \<noteq> Denied"
  shows "let obj = JObj (dict_set ''id'' (JStr (py_str ident)) kvs);
             s' = s\<lparr>heap := (heap s)(item := obj),
                    db := PyList (rs[i := item]),
                    files := (files s)(dbname s := Regular (dumps c
                       (JArr (map ((heap s)(item := obj)) (rs[i := item])))))\<rparr>
         in dbupdate c s ident item = (Inr updated, s') \<and> status updated = ''ok''
            \<and> length (rs[i := item]) = length rs \<and> rs[i := item] ! i = item
            \<and> heap s' item = obj
            \<and> (\<forall>j<length rs. j \<noteq> i \<longrightarrow> rs[i := item] ! j = rs ! j)
            \<and> (\<forall>a. a \<noteq> item \<longrightarrow> heap s' a = heap s a)
            \<and> files s' (dbname s') = Regular (dumps c (db_value s'))
            \<and> ((\<forall>j<length rs. j \<noteq> i \<longrightarrow> rs ! j \<noteq> item)
                 \<longrightarrow> db_value s' = JArr ((map (heap s) rs)[i := obj]))"
proof -
  define obj where "obj = JObj (dict_set ''id'' (JStr (py_str ident)) kvs)"
  define s' where "s' = s\<lparr>heap := (heap s)(item := obj),
                    db := PyList (rs[i := item]),
                    files := (files s)(dbname s := Regular (dumps c
                       (JArr (map ((heap s)(item := obj)) (rs[i := item])))))\<rparr>"
  have sc: "scan s ident = Inr (int i)"
    using assms(1-4) by (rule scan_found)
  obtain out t where run: "dbupdate c s ident item = (out, t)" by (cases "dbupdate c s ident item")
  from run have res: "out = Inr updated \<and> t = s'"
  proof (cases rule: dbupdate_elim)
    case (ok rs' i' kvs')
    with sc assms(1,5) have "rs' = rs" "i' = i" "kvs' = kvs" by simp_all
    with ok show ?thesis by (simp add: s'_def obj_def)
  qed (use sc assms in simp_all)
  have dv: "db_value s' = JArr (map ((heap s)(item := obj)) (rs[i := item]))"
    by (simp add: s'_def db_value_def)
  have val: "db_value s' = JArr ((map (heap s) rs)[i := obj])"
    if "\<forall>j<length rs. j \<noteq> i \<longrightarrow> rs ! j \<noteq> item"
    using that assms(2) dv by (simp add: map_heap_upd_other)
  have wrote: "files s' (dbname s') = Regular (dumps c (db_value s'))"
    unfolding dv by (simp add: s'_def)
  have pos: "length (rs[i := item]) = length rs" "rs[i := item] ! i = item"
    "\<forall>j<length rs. j \<noteq> i \<longrightarrow> rs[i := item] ! j = rs ! j"
    using assms(2) by simp_all
  have hp: "heap s' item = obj" "\<forall>a. a \<noteq> item \<longrightarrow> heap s' a = heap s a"
    by (simp_all add: s'_def)
  have st: "status updated = ''ok''" by (simp add: updated_def)
  from run res have "dbupdate c s ident item = (Inr updated, s')" by simp
  with st pos hp wrote val show ?thesis
    unfolding Let_def obj_def[symmetric] s'_def[symmetric] by blast
qed

theorem dbupdate_replaces_first_match_witness:
  "dbupdate (sample_codec []) sample_db (JStr ''1'') 2 =
     (Inr updated,
      sample_db\<lparr>heap := (heap sample_db)(2 := JObj [(''label'', JStr ''dog''), (''id'', JStr ''1'')]),
                db := PyList [2, 1],
                files := (files sample_db)(''anno.json'' := Regular (dumps (sample_codec [])
                   (JArr [JObj [(''label'', JStr ''dog''), (''id'', JStr ''1'')],
                          JObj [(''id'', JStr ''2''), (''label'', JStr ''owl'')]])))\<rparr>)"
  using dbupdate_replaces_first_match [of sample_db "[0, 1]" 0 "JStr ''1''" 2
      "[(''label'', JStr ''dog'')]" "sample_codec []"]
  by (simp add: sample_db_def getitem_def py_str_def Let_def)

text \<open>
  The proviso matters only for a caller that hands in an object the collection already
  holds: given the object stored at position 1 as the new record for the id at position
  0, both positions hold that object afterwards and both show the id it was given.
\<close>

lemma dbupdate_with_stored_object:
  "db_value (snd (dbupdate (sample_codec []) sample_db (JStr ''1'') 1)) =
     JArr [JObj [(''id'', JStr ''1''), (''label'', JStr ''owl'')],
           JObj [(''id'', JStr ''1''), (''label'', JStr ''owl'')]]"
  by (simp add: dbupdate_def scan_def dbwrite_def db_value_def sample_db_def getitem_def
      setitem_def py_str_def Let_def)

text \<open>
  C3. When every record of the collection carries an \<open>id\<close> and none equals
  \<open>str(id)\<close>, \<open>dbupdate\<close> returns the err status and the whole state, the collection,
  the heap (the caller's record included) and every file, is the state it started from.
\<close>

theorem dbupdate_not_found:
  assumes "db s = PyList rs"
    and "\<forall>r\<in>set rs. \<exists>v. getitem (heap s r) ''id'' = Inr v \<and> v \<noteq> JStr (py_str ident)"
  shows "dbupdate c s ident item = (Inr update_failed, s) \<and> status update_failed = ''err''"
  using scan_miss[OF assms] by (simp add: dbupdate_def update_failed_def)

theorem dbupdate_not_found_witness:
  "dbupdate (sample_codec []) sample_db (JInt 7) 2 = (Inr update_failed, sample_db)"
  using dbupdate_not_found [of sample_db "[0, 1]" "JInt 7" "sample_codec []" 2]
  by (simp add: sample_db_def getitem_def py_str_def str_int_def str_nat.simps)

subsection \<open>\<^verbatim>\<open>dbcreate\<close>\<close>

lemma map_heap_upd_fresh: "item \<notin> set rs \<Longrightarrow> map (h(item := obj)) rs = map h rs"
  by (induction rs) auto

text \<open>
  C2. For a collection \<open>rs\<close>, a dict \<open>item\<close> carrying an \<open>id\<close> and a backing file
  that can be written, \<open>dbcreate\<close> returns the ok status; the record's \<open>id\<close> is now
  the string \<open>str\<close> gives for the old one; the collection is the old list with \<open>item\<close>
  appended; the file holds the dump of the whole new collection. Nothing is asked about
  the ids already stored: the record is appended whether or not its id is present. When
  \<open>item\<close> is not already stored and no stored record carries its id, the collection
  shows the old values followed by the new record, which occurs exactly once.
\<close>

theorem dbcreate_appends:
  assumes "db s = PyList rs"
    and "heap s item = JObj kvs"
    and "map_of kvs ''id'' = Some v"
    and "files s (dbname s) \<noteq> Denied"
  shows "let obj = JObj (dict_set ''id'' (JStr (py_str v)) kvs);
             s' = snd (dbcreate c s item)
         in fst (dbcreate c s item) = Inr created \<and> status created = ''ok''
            \<and> getitem obj ''id'' = Inr (JStr (py_str v))
            \<and> heap s' = (heap s)(item := obj)
            \<and> dbread s' = PyList (rs @ [item])
            \<and> files s' = (files s)(dbname s := Regular (dumps c (db_value s')))
            \<and> next_addr s' = next_addr s \<and> dbname s' = dbname s
            \<and> (item \<notin> set rs \<longrightarrow> db_value s' = JArr (map (heap s) rs @ [obj]))
            \<and> (item \<notin> set rs \<and> (\<forall>r\<in>set rs. getitem (heap s r) ''id'' \<noteq> Inr (JStr (py_str v)))
                 \<longrightarrow> count_list (map (heap s') (rs @ [item])) obj = 1)"
proof -
  define obj where "obj = JObj (dict_set ''id'' (JStr (py_str v)) kvs)"
  obtain out s' where run: "dbcreate c s item = (out, s')" by (cases "dbcreate c s item")
  have gi: "getitem obj ''id'' = Inr (JStr (py_str v))"
    by (simp add: obj_def getitem_def map_of_dict_set)
  from run have res: "out = Inr created \<and>
      s' = s\<lparr>heap := (heap s)(item := obj), db := PyList (rs @ [item]),
             files := (files s)(dbname s := Regular (dumps c
                 (JArr (map ((heap s)(item := obj)) (rs @ [item])))))\<rparr>"
    using assms by (cases rule: dbcreate_elim) (auto simp: getitem_def obj_def)
  then have dv: "db_value s' = JArr (map ((heap s)(item := obj)) (rs @ [item]))"
    by (simp add: db_value_def)
  have fresh: "db_value s' = JArr (map (heap s) rs @ [obj])" if "item \<notin> set rs"
    using that dv by (simp add: map_heap_upd_fresh)
  have once: "count_list (map (heap s') (rs @ [item])) obj = 1"
    if "item \<notin> set rs" "\<forall>r\<in>set rs. getitem (heap s r) ''id'' \<noteq> Inr (JStr (py_str v))"
  proof -
    have "obj \<notin> set (map (heap s) rs)" using that(2) gi by auto
    then have "count_list (map (heap s) rs) obj = 0" by simp
    moreover have "map (heap s') (rs @ [item]) = map (heap s) rs @ [obj]"
      using res that(1) by (simp add: map_heap_upd_fresh)
    ultimately have "count_list (map (heap s') (rs @ [item])) obj = 0 + count_list [obj] obj"
      by (simp only: count_list_append)
    then show ?thesis by simp
  qed
  show ?thesis
    unfolding Let_def obj_def[symmetric] run fst_conv snd_conv
    using res gi dv fresh once by (simp add: created_def dbread_def)
qed


theorem dbcreate_appends_witness:
  "fst (dbcreate (sample_codec []) sample_db 3) = Inr created
   \<and> dbread (snd (dbcreate (sample_codec []) sample_db 3)) = PyList [0, 1, 3]
   \<and> db_value (snd (dbcreate (sample_codec []) sample_db 3)) =
       JArr [JObj [(''id'', JStr ''1''), (''label'', JStr ''cat'')],
             JObj [(''id'', JStr ''2''), (''label'', JStr ''owl'')],
             JObj [(''id'', JStr ''3''), (''label'', JStr ''eel'')]]
   \<and> count_list (map (heap (snd (dbcreate (sample_codec []) sample_db 3))) [0, 1, 3])
         (JObj [(''id'', JStr ''3''), (''label'', JStr ''eel'')]) = 1
   \<and> db_value (snd (dbcreate (sample_codec []) sample_db 4)) =
       JArr [JObj [(''id'', JStr ''1''), (''label'', JStr ''cat'')],
             JObj [(''id'', JStr ''2''), (''label'', JStr ''owl'')],
             JObj [(''id'', JStr ''1''), (''label'', JStr ''fox'')]]"
  using dbcreate_appends [of sample_db "[0, 1]" 3 "[(''id'', JInt 3), (''label'', JStr ''eel'')]"
      "JInt 3" "sample_codec []"]
    dbcreate_appends [of sample_db "[0, 1]" 4 "[(''id'', JStr ''1''), (''label'', JStr ''fox'')]"
      "JStr ''1''" "sample_codec []"]
  by (simp add: sample_db_def getitem_def py_str_def str_int_def str_nat.simps Let_def)

subsection \<open>\<^verbatim>\<open>dbdelete\<close>\<close>

text \<open>
  C4. Over a collection \<open>rs\<close>: when position \<open>i\<close> holds the first record whose
  \<open>id\<close> equals \<open>str(id)\<close> and the backing file can be written, \<open>dbdelete\<close> returns
  the ok status and the state differs from the old one only in that position \<open>i\<close> is gone
  from the list (everything before and after it stays, in order, whatever ids it
  carries), which is one shorter, and in the file, which holds the dump of the remaining
  records. When every record carries an \<open>id\<close> and none equals \<open>str(id)\<close>, it returns
  the err status and the state is unchanged, files included.
\<close>

theorem dbdelete_first_match_or_error:
  assumes "db s = PyList rs"
  shows "(i < length rs
          \<and> (\<forall>j<i. \<exists>v. getitem (heap s (rs ! j)) ''id'' = Inr v \<and> v \<noteq> JStr (py_str ident))
          \<and> getitem (heap s (rs ! i)) ''id'' = Inr (JStr (py_str ident))
          \<and> files s (dbname s) \<noteq> Denied
          \<longrightarrow> dbdelete c s ident =
                (Inr deleted,
                 s\<lparr>db := PyList (take i rs @ drop (Suc i) rs),
                   files := (files s)(dbname s := Regular (dumps c
                      (JArr (take i (map (heap s) rs) @ drop (Suc i) (map (heap s) rs)))))\<rparr>)
              \<and> status deleted = ''ok''
              \<and> length (take i rs @ drop (Suc i) rs) = length rs - 1)
       \<and> ((\<forall>r\<in>set rs. \<exists>v. getitem (heap s r) ''id'' = Inr v \<and> v \<noteq> JStr (py_str ident))
          \<longrightarrow> dbdelete c s ident = (Inr delete_failed, s) \<and> status delete_failed = ''err'')"
proof (intro conjI impI)
  assume h: "i < length rs
          \<and> (\<forall>j<i. \<exists>v. getitem (heap s (rs ! j)) ''id'' = Inr v \<and> v \<noteq> JStr (py_str ident))
          \<and> getitem (heap s (rs ! i)) ''id'' = Inr (JStr (py_str ident))
          \<and> files s (dbname s) \<noteq> Denied"
  then have sc: "scan s ident = Inr (int i)"
    using assms by (intro scan_found) auto
  define s2 where "s2 = s\<lparr>db := PyList (take i rs @ drop (Suc i) rs)\<rparr>"
  have wr: "dbwrite c s2 = (Inr (), s2\<lparr>files := (files s2)(dbname s2 := Regular (dumps c (db_value s2)))\<rparr>)"
    using h by (intro dbwrite_ok) (simp add: s2_def)
  have "db_value s2 = JArr (take i (map (heap s) rs) @ drop (Suc i) (map (heap s) rs))"
    by (simp add: db_value_def s2_def take_map drop_map)
  with sc wr assms show "dbdelete c s ident =
                (Inr deleted,
                 s\<lparr>db := PyList (take i rs @ drop (Suc i) rs),
                   files := (files s)(dbname s := Regular (dumps c
                      (JArr (take i (map (heap s) rs) @ drop (Suc i) (map (heap s) rs)))))\<rparr>)"
    by (simp add: dbdelete_def Let_def s2_def)
  show "status deleted = ''ok''" by (simp add: deleted_def)
  from h show "length (take i rs @ drop (Suc i) rs) = length rs - 1" by auto
next
  assume "\<forall>r\<in>set rs. \<exists>v. getitem (heap s r) ''id'' = Inr v \<and> v \<noteq> JStr (py_str ident)"
  with assms have "scan s ident = Inr (- 1)" by (rule scan_miss)
  then show "dbdelete c s ident = (Inr delete_failed, s)" by (simp add: dbdelete_def)
  show "status delete_failed = ''err''" by (simp add: delete_failed_def)
qed

theorem dbdelete_first_match_or_error_witness:
  "dbdelete (sample_codec []) (sample_db\<lparr>db := PyList [1, 0, 4]\<rparr>) (JStr ''1'') =
     (Inr deleted,
      sample_db\<lparr>db := PyList [1, 4],
                files := (files sample_db)(''anno.json'' := Regular (dumps (sample_codec [])
                   (JArr [JObj [(''id'', JStr ''2''), (''label'', JStr ''owl'')],
                          JObj [(''id'', JStr ''1''), (''label'', JStr ''fox'')]])))\<rparr>)
   \<and> dbdelete (sample_codec []) (sample_db\<lparr>db := PyList [1, 0, 4]\<rparr>) (JStr ''9'') =
     (Inr delete_failed, sample_db\<lparr>db := PyList [1, 0, 4]\<rparr>)"
  using dbdelete_first_match_or_error [of "sample_db\<lparr>db := PyList [1, 0, 4]\<rparr>" "[1, 0, 4]" 1
      "JStr ''1''" "sample_codec []"]
    dbdelete_first_match_or_error [of "sample_db\<lparr>db := PyList [1, 0, 4]\<rparr>" "[1, 0, 4]" 0
      "JStr ''9''" "sample_codec []"]
  by (simp add: sample_db_def getitem_def py_str_def)

lemma nth_take_drop:
  "i < length xs \<Longrightarrow> x \<in> set (take i xs @ drop (Suc i) xs) \<Longrightarrow> \<exists>j<length xs. j \<noteq> i \<and> x = xs ! j"
proof -
  assume i: "i < length xs" and "x \<in> set (take i xs @ drop (Suc i) xs)"
  then consider "x \<in> set (take i xs)" | "x \<in> set (drop (Suc i) xs)" by auto
  then show ?thesis
  proof cases
    case 1
    then obtain j where "j < length (take i xs)" "x = take i xs ! j" by (auto simp: in_set_conv_nth)
    with i show ?thesis by (intro exI[of _ j]) auto
  next
    case 2
    then obtain j where j: "j < length (drop (Suc i) xs)" "x = drop (Suc i) xs ! j"
      by (auto simp: in_set_conv_nth)
    with i show ?thesis by (intro exI[of _ "Suc i + j"]) auto
  qed
qed

text \<open>
  C8, as amended. Over a collection in which position \<open>i\<close> holds the only record whose
  \<open>id\<close> equals \<open>str(id)\<close> (every other record carries another id), the first
  \<open>dbdelete\<close> removes position \<open>i\<close>, returning the ok status when the file can be
  written, and a second \<open>dbdelete\<close> with the same id returns the err status and leaves
  the state it found, files included.
\<close>

theorem dbdelete_twice_unique:
  assumes "db s = PyList rs"
    and "i < length rs"
    and "getitem (heap s (rs ! i)) ''id'' = Inr (JStr (py_str ident))"
    and "\<forall>j<length rs. j \<noteq> i \<longrightarrow>
           (\<exists>v. getitem (heap s (rs ! j)) ''id'' = Inr v \<and> v \<noteq> JStr (py_str ident))"
  shows "(files s (dbname s) \<noteq> Denied \<longrightarrow> fst (dbdelete c s ident) = Inr deleted)
       \<and> db (snd (dbdelete c s ident)) = PyList (take i rs @ drop (Suc i) rs)
       \<and> dbdelete c (snd (dbdelete c s ident)) ident = (Inr delete_failed, snd (dbdelete c s ident))
       \<and> status delete_failed = ''err''"
proof -
  have sc: "scan s ident = Inr (int i)"
    using assms by (intro scan_found) auto
  obtain out s1 where run: "dbdelete c s ident = (out, s1)" by (cases "dbdelete c s ident")
  from run have s1: "db s1 = PyList (take i rs @ drop (Suc i) rs) \<and> heap s1 = heap s
      \<and> (files s (dbname s) \<noteq> Denied \<longrightarrow> out = Inr deleted)"
  proof (cases rule: dbdelete_elim)
    case (raised e)
    with sc show ?thesis by simp
  next
    case not_found
    with sc show ?thesis by simp
  next
    case (no_write rs' i')
    with sc assms(1) have "rs' = rs" "i' = i" by simp_all
    with no_write show ?thesis by simp
  next
    case (ok rs' i')
    with sc assms(1) have "rs' = rs" "i' = i" by simp_all
    with ok show ?thesis by simp
  qed
  have "\<forall>r\<in>set (take i rs @ drop (Suc i) rs).
          \<exists>v. getitem (heap s1 r) ''id'' = Inr v \<and> v \<noteq> JStr (py_str ident)"
  proof
    fix r assume "r \<in> set (take i rs @ drop (Suc i) rs)"
    with assms(2) have "\<exists>j<length rs. j \<noteq> i \<and> r = rs ! j"
      by (intro nth_take_drop)
    then obtain j where j: "j < length rs" "j \<noteq> i" "r = rs ! j" by blast
    from assms(4) j(1,2) have "\<exists>v. getitem (heap s (rs ! j)) ''id'' = Inr v \<and> v \<noteq> JStr (py_str ident)"
      by blast
    with j(3) s1 show "\<exists>v. getitem (heap s1 r) ''id'' = Inr v \<and> v \<noteq> JStr (py_str ident)"
      by simp
  qed
  with s1 have "scan s1 ident = Inr (- 1)" by (intro scan_miss[where rs="take i rs @ drop (Suc i) rs"]) simp_all
  then have "dbdelete c s1 ident = (Inr delete_failed, s1)" by (simp add: dbdelete_def)
  with s1 show ?thesis by (simp add: run delete_failed_def)
qed

theorem dbdelete_twice_unique_witness:
  "fst (dbdelete (sample_codec []) sample_db (JStr ''1'')) = Inr deleted
   \<and> db (snd (dbdelete (sample_codec []) sample_db (JStr ''1''))) = PyList [1]
   \<and> dbdelete (sample_codec []) (snd (dbdelete (sample_codec []) sample_db (JStr ''1''))) (JStr ''1'')
       = (Inr delete_failed, snd (dbdelete (sample_codec []) sample_db (JStr ''1'')))"
  using dbdelete_twice_unique [of sample_db "[0, 1]" 0 "JStr ''1''" "sample_codec []"]
  by (simp add: sample_db_def getitem_def py_str_def)

text \<open>
  C8 as stated fails when two records carry the id, which \<open>dbcreate\<close> permits: the
  second call finds the second record, removes it and returns the ok status.
\<close>

theorem dbdelete_twice_duplicate_counterexample:
  "db (sample_db\<lparr>db := PyList [0, 4]\<rparr>) = PyList [0, 4]
   \<and> getitem (heap (sample_db\<lparr>db := PyList [0, 4]\<rparr>) 0) ''id'' = Inr (JStr (py_str (JStr ''1'')))
   \<and> fst (dbdelete (sample_codec []) (sample_db\<lparr>db := PyList [0, 4]\<rparr>) (JStr ''1'')) = Inr deleted
   \<and> db (snd (dbdelete (sample_codec []) (sample_db\<lparr>db := PyList [0, 4]\<rparr>) (JStr ''1''))) = PyList [4]
   \<and> fst (dbdelete (sample_codec [])
            (snd (dbdelete (sample_codec []) (sample_db\<lparr>db := PyList [0, 4]\<rparr>) (JStr ''1'')))
            (JStr ''1'')) = Inr deleted
   \<and> status deleted = ''ok''
   \<and> db (snd (dbdelete (sample_codec [])
            (snd (dbdelete (sample_codec []) (sample_db\<lparr>db := PyList [0, 4]\<rparr>) (JStr ''1'')))
            (JStr ''1''))) = PyList []"
  by (simp add: dbdelete_def scan_def dbwrite_def sample_db_def getitem_def py_str_def
      deleted_def Let_def)

subsection \<open>The stored record is the caller's object\<close>

lemma getitem_dict_set:
  "getitem (JObj (dict_set k v kvs)) k' = (if k' = k then Inr v else getitem (JObj kvs) k')"
  by (simp add: getitem_def map_of_dict_set)

text \<open>
  C10. Whenever \<open>dbcreate\<close> returns, and whenever \<open>dbupdate\<close> returns the ok status,
  the caller's object was a dict and has been changed in place: the heap differs from the
  old one at the address \<open>item\<close> only, where \<open>id\<close> now holds the string and every
  other key gives what it gave before. The collection holds the address \<open>item\<close> itself
  (appended by \<open>dbcreate\<close>, at the matched position for \<open>dbupdate\<close>), not a copy:
  whatever value the caller's object takes afterwards is the value the collection shows
  at that position.
\<close>

theorem stored_record_is_callers_object:
  "(dbcreate c s item = (Inr r, s') \<longrightarrow>
      (\<exists>rs kvs v. db s = PyList rs \<and> heap s item = JObj kvs \<and> map_of kvs ''id'' = Some v
         \<and> db s' = PyList (rs @ [item])
         \<and> heap s' = (heap s)(item := JObj (dict_set ''id'' (JStr (py_str v)) kvs))
         \<and> getitem (heap s' item) ''id'' = Inr (JStr (py_str v))
         \<and> (\<forall>k. k \<noteq> ''id'' \<longrightarrow> getitem (heap s' item) k = getitem (heap s item) k)
         \<and> (\<forall>x. \<exists>ys. db_value (s'\<lparr>heap := (heap s')(item := x)\<rparr>) = JArr (ys @ [x]))))
   \<and> (dbupdate c s ident item = (Inr r, s') \<and> status r = ''ok'' \<longrightarrow>
      (\<exists>rs i kvs. db s = PyList rs \<and> i < length rs \<and> heap s item = JObj kvs
         \<and> db s' = PyList (rs[i := item])
         \<and> heap s' = (heap s)(item := JObj (dict_set ''id'' (JStr (py_str ident)) kvs))
         \<and> getitem (heap s' item) ''id'' = Inr (JStr (py_str ident))
         \<and> (\<forall>k. k \<noteq> ''id'' \<longrightarrow> getitem (heap s' item) k = getitem (heap s item) k)
         \<and> (\<forall>x. \<exists>ys. db_value (s'\<lparr>heap := (heap s')(item := x)\<rparr>) = JArr ys
                \<and> length ys = length rs \<and> ys ! i = x)))"
proof (intro conjI impI)
  assume run: "dbcreate c s item = (Inr r, s')"
  then show "\<exists>rs kvs v. db s = PyList rs \<and> heap s item = JObj kvs \<and> map_of kvs ''id'' = Some v
         \<and> db s' = PyList (rs @ [item])
         \<and> heap s' = (heap s)(item := JObj (dict_set ''id'' (JStr (py_str v)) kvs))
         \<and> getitem (heap s' item) ''id'' = Inr (JStr (py_str v))
         \<and> (\<forall>k. k \<noteq> ''id'' \<longrightarrow> getitem (heap s' item) k = getitem (heap s item) k)
         \<and> (\<forall>x. \<exists>ys. db_value (s'\<lparr>heap := (heap s')(item := x)\<rparr>) = JArr (ys @ [x]))"
  proof (cases rule: dbcreate_elim)
    case (ok kvs v rs)
    have "db_value (s'\<lparr>heap := (heap s')(item := x)\<rparr>) = JArr (map ((heap s')(item := x)) rs @ [x])" for x
      using ok(6) by (simp add: db_value_def)
    then have "\<forall>x. \<exists>ys. db_value (s'\<lparr>heap := (heap s')(item := x)\<rparr>) = JArr (ys @ [x])"
      by blast
    with ok show ?thesis
      by (intro exI[of _ rs] exI[of _ kvs] exI[of _ v]) (simp add: getitem_dict_set)
  qed simp_all
next
  assume "dbupdate c s ident item = (Inr r, s') \<and> status r = ''ok''"
  then have run: "dbupdate c s ident item = (Inr r, s')" and st: "status r = ''ok''" by simp_all
  from run show "\<exists>rs i kvs. db s = PyList rs \<and> i < length rs \<and> heap s item = JObj kvs
         \<and> db s' = PyList (rs[i := item])
         \<and> heap s' = (heap s)(item := JObj (dict_set ''id'' (JStr (py_str ident)) kvs))
         \<and> getitem (heap s' item) ''id'' = Inr (JStr (py_str ident))
         \<and> (\<forall>k. k \<noteq> ''id'' \<longrightarrow> getitem (heap s' item) k = getitem (heap s item) k)
         \<and> (\<forall>x. \<exists>ys. db_value (s'\<lparr>heap := (heap s')(item := x)\<rparr>) = JArr ys
                \<and> length ys = length rs \<and> ys ! i = x)"
  proof (cases rule: dbupdate_elim)
    case not_found
    with st show ?thesis by (simp add: update_failed_def)
  next
    case (ok rs i kvs)
    have "db_value (s'\<lparr>heap := (heap s')(item := x)\<rparr>) = JArr (map ((heap s')(item := x)) (rs[i := item]))" for x
      using ok(7) by (simp add: db_value_def)
    moreover have "map ((heap s')(item := x)) (rs[i := item]) ! i = x" for x
      using ok(2) by simp
    ultimately have "\<forall>x. \<exists>ys. db_value (s'\<lparr>heap := (heap s')(item := x)\<rparr>) = JArr ys
                \<and> length ys = length rs \<and> ys ! i = x"
      by (metis length_list_update length_map)
    with ok show ?thesis
      by (intro exI[of _ rs] exI[of _ i] exI[of _ kvs]) (simp add: getitem_dict_set)
  qed simp_all
qed


theorem stored_record_is_callers_object_witness:
  "dbcreate (sample_codec []) sample_db 3 =
     (Inr created, snd (dbcreate (sample_codec []) sample_db 3))
   \<and> db (snd (dbcreate (sample_codec []) sample_db 3)) = PyList ([0, 1] @ [3])
   \<and> getitem (heap (snd (dbcreate (sample_codec []) sample_db 3)) 3) ''id'' = Inr (JStr ''3'')
   \<and> getitem (heap (snd (dbcreate (sample_codec []) sample_db 3)) 3) ''label'' = Inr (JStr ''eel'')
   \<and> dbupdate (sample_codec []) sample_db (JStr ''2'') 2 =
     (Inr updated, snd (dbupdate (sample_codec []) sample_db (JStr ''2'') 2))
   \<and> status updated = ''ok''
   \<and> db (snd (dbupdate (sample_codec []) sample_db (JStr ''2'') 2)) = PyList ([0, 1][1 := 2])
   \<and> getitem (heap (snd (dbupdate (sample_codec []) sample_db (JStr ''2'') 2)) 2) ''id'' = Inr (JStr ''2'')
   \<and> getitem (heap (snd (dbupdate (sample_codec []) sample_db (JStr ''2'') 2)) 2) ''label'' = Inr (JStr ''dog'')"
proof -
  have a: "dbcreate (sample_codec []) sample_db 3 =
     (Inr created, snd (dbcreate (sample_codec []) sample_db 3))"
    by (simp add: dbcreate_def dbwrite_def sample_db_def getitem_def setitem_def Let_def)
  have b: "dbupdate (sample_codec []) sample_db (JStr ''2'') 2 =
     (Inr updated, snd (dbupdate (sample_codec []) sample_db (JStr ''2'') 2))"
    by (simp add: dbupdate_def scan_def dbwrite_def sample_db_def getitem_def setitem_def
        py_str_def Let_def)
  have c: "status updated = ''ok''" by (simp add: updated_def)
  have h: "db sample_db = PyList [0, 1]"
    "heap sample_db 3 = JObj [(''id'', JInt 3), (''label'', JStr ''eel'')]"
    "heap sample_db 2 = JObj [(''label'', JStr ''dog'')]"
    by (simp_all add: sample_db_def)
  have e: "py_str (JInt 3) = ''3''" "py_str (JStr ''2'') = ''2''"
    by (simp_all add: py_str_def str_int_def str_nat.simps)
  from stored_record_is_callers_object [of "sample_codec []" sample_db 3 created
      "snd (dbcreate (sample_codec []) sample_db 3)"] a h e
  have 1: "db (snd (dbcreate (sample_codec []) sample_db 3)) = PyList ([0, 1] @ [3])
   \<and> getitem (heap (snd (dbcreate (sample_codec []) sample_db 3)) 3) ''id'' = Inr (JStr ''3'')
   \<and> getitem (heap (snd (dbcreate (sample_codec []) sample_db 3)) 3) ''label'' = Inr (JStr ''eel'')"
    by (auto simp: getitem_def)
  from stored_record_is_callers_object [of "sample_codec []" sample_db 2 updated
      "snd (dbupdate (sample_codec []) sample_db (JStr ''2'') 2)" "JStr ''2''"] b c h e
  have 2: "getitem (heap (snd (dbupdate (sample_codec []) sample_db (JStr ''2'') 2)) 2) ''id'' = Inr (JStr ''2'')
   \<and> getitem (heap (snd (dbupdate (sample_codec []) sample_db (JStr ''2'') 2)) 2) ''label'' = Inr (JStr ''dog'')"
    by (auto simp: getitem_def)
  have 3: "db (snd (dbupdate (sample_codec []) sample_db (JStr ''2'') 2)) = PyList ([0, 1][1 := 2])"
    by (simp add: dbupdate_def scan_def dbwrite_def sample_db_def getitem_def setitem_def
        py_str_def Let_def)
  from a b c 1 2 3 show ?thesis by blast
qed

subsection \<open>The POST handler never answers 400\<close>



subsection \<open>Loading\<close>




subsection \<open>Reloading what was written\<close>

lemma alloc_list_below: "a < n \<Longrightarrow> alloc_list h n xs a = h a"
  by (induction xs arbitrary: h n) auto

lemma alloc_list_nth: "k < length xs \<Longrightarrow> alloc_list h n xs (n + k) = xs ! k"
proof (induction xs arbitrary: h n k)
  case Nil
  then show ?case by simp
next
  case (Cons x xs)
  show ?case
  proof (cases k)
    case 0
    then show ?thesis by (simp add: alloc_list_below)
  next
    case (Suc k')
    with Cons.prems have "k' < length xs" by simp
    then have "alloc_list (h(n := x)) (Suc n) xs (Suc n + k') = xs ! k'"
      by (rule Cons.IH)
    with Suc show ?thesis by simp
  qed
qed

lemma map_alloc_list: "map (alloc_list h n xs) [n ..< n + length xs] = xs"
  by (rule nth_equalityI) (simp_all add: alloc_list_nth)

lemma db_value_adopt_list: "db_value (adopt w name (JArr xs)) = JArr xs"
  by (simp add: adopt_def db_value_def map_alloc_list)

lemma apply_op_ok_file:
  assumes "apply_op c s x = (Inr r, s')" "status r = ''ok''"
  shows "files s' (dbname s') = Regular (dumps c (db_value s')) \<and> (\<exists>rs. db s' = PyList rs)"
proof (cases x)
  case (Create item)
  with assms(1) have "dbcreate c s item = (Inr r, s')" by simp
  then show ?thesis
    by (cases rule: dbcreate_elim) (simp_all add: db_value_def)
next
  case (Update ident item)
  with assms(1) have "dbupdate c s ident item = (Inr r, s')" by simp
  then show ?thesis using assms(2)
    by (cases rule: dbupdate_elim) (simp_all add: db_value_def update_failed_def)
next
  case (Delete ident)
  with assms(1) have "dbdelete c s ident = (Inr r, s')" by simp
  then show ?thesis using assms(2)
    by (cases rule: dbdelete_elim) (simp_all add: db_value_def delete_failed_def)
qed

text \<open>
  C5. Take any sequence of operations on any store, followed by a create, update or
  delete that returns the ok status. The file at the store's path then holds what
  \<^verbatim>\<open>json.dump\<close> writes for the collection as it stands in memory. If \<^verbatim>\<open>json.load\<close>
  reads that value back from that text, \<open>DB_init\<close> on the same path, in the world the
  operation left, does not raise and gives a store whose collection denotes the same
  JSON value as the collection in memory.
\<close>

theorem reload_after_successful_mutation:
  assumes "apply_op c (run c s0 ops) x = (Inr r, s')"
    and "status r = ''ok''"
  shows "files s' (dbname s') = Regular (dumps c (db_value s'))
       \<and> (loads c (dumps c (db_value s')) = Some (db_value s') \<longrightarrow>
           (\<exists>t. DB_init c s' (dbname s') = Inr t \<and> db_value t = db_value s'
                \<and> dbname t = dbname s' \<and> files t = files s'))"
proof (intro conjI impI)
  from apply_op_ok_file[OF assms] obtain rs where
    f: "files s' (dbname s') = Regular (dumps c (db_value s'))" and rs: "db s' = PyList rs"
    by blast
  from f show "files s' (dbname s') = Regular (dumps c (db_value s'))" .
  assume rt: "loads c (dumps c (db_value s')) = Some (db_value s')"
  from rs have v: "db_value s' = JArr (map (heap s') rs)" by (simp add: db_value_def)
  have "DB_init c s' (dbname s') = Inr (adopt s' (dbname s') (JArr (map (heap s') rs)))"
    using f rt v by (simp add: DB_init_def open_read_def json_load_def)
  moreover have "db_value (adopt s' (dbname s') (JArr (map (heap s') rs))) = db_value s'"
    using v by (simp add: db_value_adopt_list)
  moreover have "dbname (adopt s' (dbname s') (JArr (map (heap s') rs))) = dbname s'"
    "files (adopt s' (dbname s') (JArr (map (heap s') rs))) = files s'"
    by (simp_all add: adopt_def)
  ultimately show "\<exists>t. DB_init c s' (dbname s') = Inr t \<and> db_value t = db_value s'
                \<and> dbname t = dbname s' \<and> files t = files s'" by blast
qed

theorem reload_after_successful_mutation_witness:
  "map_sum id db_value
     (DB_init
        (sample_codec [JArr [JObj [(''id'', JStr ''2''), (''label'', JStr ''owl'')],
                             JObj [(''id'', JStr ''3''), (''label'', JStr ''eel'')]]])
        (snd (apply_op
           (sample_codec [JArr [JObj [(''id'', JStr ''2''), (''label'', JStr ''owl'')],
                                JObj [(''id'', JStr ''3''), (''label'', JStr ''eel'')]]])
           (run
              (sample_codec [JArr [JObj [(''id'', JStr ''2''), (''label'', JStr ''owl'')],
                                   JObj [(''id'', JStr ''3''), (''label'', JStr ''eel'')]]])
              sample_db [Create 3])
           (Delete (JStr ''1''))))
        ''anno.json'')
   = Inr (JArr [JObj [(''id'', JStr ''2''), (''label'', JStr ''owl'')],
                JObj [(''id'', JStr ''3''), (''label'', JStr ''eel'')]])"
proof -
  define V where "V = JArr [JObj [(''id'', JStr ''2''), (''label'', JStr ''owl'')],
                           JObj [(''id'', JStr ''3''), (''label'', JStr ''eel'')]]"
  define C where "C = sample_codec [V]"
  define S where "S = snd (apply_op C (run C sample_db [Create 3]) (Delete (JStr ''1'')))"
  have e: "py_str (JInt 3) = ''3''" "py_str (JStr ''1'') = ''1''"
    by (simp_all add: py_str_def str_int_def str_nat.simps)
  have r1: "run C sample_db [Create 3] =
      sample_db\<lparr>heap := (heap sample_db)(3 := JObj [(''id'', JStr ''3''), (''label'', JStr ''eel'')]),
                db := PyList [0, 1, 3],
                files := (files sample_db)(''anno.json'' := Regular (dumps C
                  (JArr [JObj [(''id'', JStr ''1''), (''label'', JStr ''cat'')],
                         JObj [(''id'', JStr ''2''), (''label'', JStr ''owl'')],
                         JObj [(''id'', JStr ''3''), (''label'', JStr ''eel'')]])))\<rparr>"
    by (simp add: dbcreate_def dbwrite_def db_value_def sample_db_def getitem_def setitem_def e Let_def)
  have r2: "apply_op C (run C sample_db [Create 3]) (Delete (JStr ''1'')) = (Inr deleted, S)"
    unfolding S_def r1
    by (simp add: dbdelete_def scan_def dbwrite_def sample_db_def getitem_def e Let_def)
  have v: "db_value S = V" "dbname S = ''anno.json''"
    unfolding S_def r1 V_def
    by (simp_all add: dbdelete_def scan_def dbwrite_def db_value_def sample_db_def getitem_def e Let_def)
  have l: "loads C (dumps C (db_value S)) = Some (db_value S)"
    unfolding v by (simp add: C_def sample_codec_def)
  have k: "status deleted = ''ok''" by (simp add: deleted_def)
  from reload_after_successful_mutation [OF r2 k] l v
  have "map_sum id db_value (DB_init C S ''anno.json'') = Inr V" by auto
  then show ?thesis unfolding S_def C_def V_def .
qed

subsection \<open>The ids of reachable collections\<close>

lemma scan_hit_id:
  assumes "scan s ident = Inr (int i)" "db s = PyList rs"
  shows "getitem (heap s (rs ! i)) ''id'' = Inr (JStr (py_str ident))"
  using assms(1)
proof (cases rule: scan_elim)
  case (hit rs' i')
  with assms have "rs' = rs" "i' = i" by simp_all
  with hit show ?thesis by simp
qed simp_all

lemma is_str_id_iff: "is_str_id x \<longleftrightarrow> (\<exists>t. x = Inr (JStr t))"
  by (cases x rule: is_str_id.cases) auto

lemma string_ids_heap_upd:
  assumes "list_all is_str_id (map (\<lambda>r. getitem (h r) ''id'') rs)"
    and "is_str_id (getitem obj ''id'')"
  shows "list_all is_str_id (map (\<lambda>r. getitem ((h(item := obj)) r) ''id'') rs)"
  using assms by (induction rs) auto

lemma inv_create:
  assumes "list_of_string_ids s" "dbcreate c s item = (out, s')"
  shows "list_of_string_ids s'"
proof -
  from assms(1) obtain rs0 where rs0: "db s = PyList rs0"
    and str: "list_all is_str_id (map (\<lambda>r. getitem (heap s r) ''id'') rs0)"
    by (auto simp: list_of_string_ids_def string_ids_def record_ids_def split: dbval.splits)
  have step: "list_of_string_ids s'"
    if "db s' = PyList (rs0 @ [item])"
      and "heap s' = (heap s)(item := JObj (dict_set ''id'' (JStr t) kvs))" for t kvs
  proof -
    have g: "is_str_id (getitem (JObj (dict_set ''id'' (JStr t) kvs)) ''id'')"
      by (simp add: getitem_dict_set)
    from string_ids_heap_upd[OF str g, of item]
    have "list_all is_str_id (map (\<lambda>r. getitem (((heap s)(item := JObj (dict_set ''id'' (JStr t) kvs))) r) ''id'') (rs0 @ [item]))"
      using g by simp
    with that show ?thesis
      by (simp add: list_of_string_ids_def string_ids_def record_ids_def)
  qed
  from assms(2) show ?thesis
  proof (cases rule: dbcreate_elim)
    case (no_id e)
    with assms(1) show ?thesis by simp
  next
    case (no_append kvs v)
    with rs0 show ?thesis by simp
  next
    case (no_write kvs v rs)
    with rs0 have "rs = rs0" by simp
    with no_write(6) show ?thesis by (intro step[of "py_str v" kvs]) simp_all
  next
    case (ok kvs v rs)
    with rs0 have "rs = rs0" by simp
    with ok(6) show ?thesis by (intro step[of "py_str v" kvs]) simp_all
  qed
qed

lemma inv_update:
  assumes "list_of_string_ids s" "dbupdate c s ident item = (out, s')"
  shows "list_of_string_ids s'"
proof -
  from assms(1) obtain rs0 where rs0: "db s = PyList rs0"
    and str: "list_all is_str_id (map (\<lambda>r. getitem (heap s r) ''id'') rs0)"
    by (auto simp: list_of_string_ids_def string_ids_def record_ids_def split: dbval.splits)
  have step: "list_of_string_ids s'"
    if "db s' = PyList (rs0[i := item])"
      and "heap s' = (heap s)(item := JObj (dict_set ''id'' (JStr t) kvs))" for t kvs i
  proof -
    let ?h = "(heap s)(item := JObj (dict_set ''id'' (JStr t) kvs))"
    have g: "is_str_id (getitem (JObj (dict_set ''id'' (JStr t) kvs)) ''id'')"
      by (simp add: getitem_dict_set)
    have all: "\<forall>r\<in>set rs0. is_str_id (getitem (?h r) ''id'')"
      using string_ids_heap_upd[OF str g, of item] by (simp add: list_all_iff)
    have "\<forall>r\<in>set (rs0[i := item]). is_str_id (getitem (?h r) ''id'')"
    proof
      fix r assume "r \<in> set (rs0[i := item])"
      then have "r = item \<or> r \<in> set rs0" using set_update_subset_insert by fastforce
      with all g show "is_str_id (getitem (?h r) ''id'')" by auto
    qed
    with that show ?thesis
      by (simp add: list_of_string_ids_def string_ids_def record_ids_def list_all_iff)
  qed
  from assms(2) show ?thesis
  proof (cases rule: dbupdate_elim)
    case (no_write rs i kvs)
    with rs0 have "rs = rs0" by simp
    with no_write(7) show ?thesis by (intro step[of i "py_str ident" kvs]) simp_all
  next
    case (ok rs i kvs)
    with rs0 have "rs = rs0" by simp
    with ok(7) show ?thesis by (intro step[of i "py_str ident" kvs]) simp_all
  qed (use assms(1) in simp_all)
qed

lemma inv_delete:
  assumes "list_of_string_ids s" "dbdelete c s ident = (out, s')"
  shows "list_of_string_ids s'"
proof -
  from assms(1) obtain rs0 where rs0: "db s = PyList rs0"
    and str: "list_all is_str_id (map (\<lambda>r. getitem (heap s r) ''id'') rs0)"
    by (auto simp: list_of_string_ids_def string_ids_def record_ids_def split: dbval.splits)
  have step: "list_of_string_ids s'"
    if "db s' = PyList (take i rs0 @ drop (Suc i) rs0)" and "heap s' = heap s" for i
  proof -
    have "\<forall>r\<in>set (take i rs0 @ drop (Suc i) rs0). is_str_id (getitem (heap s r) ''id'')"
      using str by (auto simp: list_all_iff dest: in_set_takeD in_set_dropD)
    with that show ?thesis
      by (auto simp: list_of_string_ids_def string_ids_def record_ids_def list_all_iff)
  qed
  from assms(2) show ?thesis
  proof (cases rule: dbdelete_elim)
    case (no_write rs i)
    with rs0 have "rs = rs0" by simp
    with no_write(6) show ?thesis by (intro step[of i]) simp_all
  next
    case (ok rs i)
    with rs0 have "rs = rs0" by simp
    with ok(6) show ?thesis by (intro step[of i]) simp_all
  qed (use assms(1) in simp_all)
qed

lemma inv_apply_op: "list_of_string_ids s \<Longrightarrow> list_of_string_ids (snd (apply_op c s x))"
proof (cases x)
  case (Create item)
  assume "list_of_string_ids s"
  then show ?thesis using Create inv_create[of s c item "fst (dbcreate c s item)" "snd (dbcreate c s item)"]
    by simp
next
  case (Update ident item)
  assume "list_of_string_ids s"
  then show ?thesis using Update
      inv_update[of s c ident item "fst (dbupdate c s ident item)" "snd (dbupdate c s ident item)"]
    by simp
next
  case (Delete ident)
  assume "list_of_string_ids s"
  then show ?thesis using Delete
      inv_delete[of s c ident "fst (dbdelete c s ident)" "snd (dbdelete c s ident)"]
    by simp
qed

lemma inv_run: "list_of_string_ids s \<Longrightarrow> list_of_string_ids (run c s ops)"
  by (induction ops arbitrary: s) (simp_all add: inv_apply_op)


lemma py_str_JStr: "py_str (JStr t) = t"
  by (simp add: py_str_def)

lemma unique_create:
  assumes "list_of_string_ids s" "unique_ids s" "admissible s (Create item)"
    and "dbcreate c s item = (out, s')"
  shows "unique_ids s'"
proof -
  from assms(1) obtain rs0 where rs0: "db s = PyList rs0"
    and str: "list_all is_str_id (map (\<lambda>r. getitem (heap s r) ''id'') rs0)"
    by (auto simp: list_of_string_ids_def string_ids_def record_ids_def split: dbval.splits)
  from assms(2) rs0 have dist: "distinct (map (\<lambda>r. getitem (heap s r) ''id'') rs0)"
    by (simp add: unique_ids_def record_ids_def)
  have step: "unique_ids s'"
    if kv: "heap s item = JObj kvs" "map_of kvs ''id'' = Some v"
      and s': "db s' = PyList (rs0 @ [item])"
        "heap s' = (heap s)(item := JObj (dict_set ''id'' (JStr (py_str v)) kvs))" for kvs v
  proof -
    let ?ids = "map (\<lambda>r. getitem (heap s r) ''id'') rs0"
    from kv have gi: "getitem (heap s item) ''id'' = Inr v" by (simp add: getitem_def)
    with assms(3) rs0 have new: "Inr (JStr (py_str v)) \<notin> set ?ids"
      by (simp add: record_ids_def)
    have fresh: "item \<notin> set rs0"
    proof
      assume "item \<in> set rs0"
      with gi have mem: "Inr v \<in> set ?ids" by force
      with str have "is_str_id (Inr v)" by (auto simp: list_all_iff)
      then obtain t where "v = JStr t" by (auto simp: is_str_id_iff)
      with mem new show False by (simp add: py_str_JStr)
    qed
    have "map (\<lambda>r. getitem (heap s' r) ''id'') rs0 = ?ids"
      using fresh s'(2) by (intro map_cong) auto
    then have "record_ids s' = ?ids @ [Inr (JStr (py_str v))]"
      using s' by (simp add: record_ids_def getitem_dict_set)
    with dist new show ?thesis by (simp add: unique_ids_def)
  qed
  from assms(4) show ?thesis
  proof (cases rule: dbcreate_elim)
    case (no_id e)
    with assms(2) show ?thesis by simp
  next
    case (no_append kvs v)
    with rs0 show ?thesis by simp
  next
    case (no_write kvs v rs)
    with rs0 have "rs = rs0" by simp
    with no_write show ?thesis by (intro step[of kvs v]) simp_all
  next
    case (ok kvs v rs)
    with rs0 have "rs = rs0" by simp
    with ok show ?thesis by (intro step[of kvs v]) simp_all
  qed
qed

lemma unique_update:
  assumes "unique_ids s" "admissible s (Update ident item)"
    and "dbupdate c s ident item = (out, s')"
  shows "unique_ids s'"
proof -
  have step: "unique_ids s'"
    if rs: "db s = PyList rs" "i < length rs" "scan s ident = Inr (int i)"
      and s': "db s' = PyList (rs[i := item])"
        "heap s' = (heap s)(item := JObj (dict_set ''id'' (JStr (py_str ident)) kvs))" for rs i kvs
  proof -
    from assms(2) rs(1) have fresh: "item \<notin> set rs" by simp
    have hit: "getitem (heap s (rs ! i)) ''id'' = Inr (JStr (py_str ident))"
      using rs(3,1) by (rule scan_hit_id)
    have "map (\<lambda>r. getitem (heap s' r) ''id'') (rs[i := item]) = map (\<lambda>r. getitem (heap s r) ''id'') rs"
    proof (rule nth_equalityI)
      show "length (map (\<lambda>r. getitem (heap s' r) ''id'') (rs[i := item]))
          = length (map (\<lambda>r. getitem (heap s r) ''id'') rs)" by simp
    next
      fix j assume "j < length (map (\<lambda>r. getitem (heap s' r) ''id'') (rs[i := item]))"
      then have j: "j < length rs" by simp
      show "map (\<lambda>r. getitem (heap s' r) ''id'') (rs[i := item]) ! j
          = map (\<lambda>r. getitem (heap s r) ''id'') rs ! j"
      proof (cases "j = i")
        case True
        with j hit s'(2) show ?thesis by (simp add: getitem_dict_set)
      next
        case False
        from j fresh have "rs ! j \<noteq> item" by (metis nth_mem)
        with False j s'(2) show ?thesis by simp
      qed
    qed
    with s'(1) rs(1) have "record_ids s' = record_ids s" by (simp add: record_ids_def)
    with assms(1) show ?thesis by (simp add: unique_ids_def)
  qed
  from assms(3) show ?thesis
  proof (cases rule: dbupdate_elim)
    case (no_write rs i kvs)
    then show ?thesis by (intro step[of rs i kvs]) simp_all
  next
    case (ok rs i kvs)
    then show ?thesis by (intro step[of rs i kvs]) simp_all
  qed (use assms(1) in simp_all)
qed

lemma distinct_remove_nth: "distinct xs \<Longrightarrow> distinct (take i xs @ drop (Suc i) xs)"
  by (simp add: set_take_disj_set_drop_if_distinct)

lemma unique_delete:
  assumes "unique_ids s" "dbdelete c s ident = (out, s')"
  shows "unique_ids s'"
proof -
  have step: "unique_ids s'"
    if "db s = PyList rs" "db s' = PyList (take i rs @ drop (Suc i) rs)" "heap s' = heap s" for rs i
  proof -
    let ?ids = "map (\<lambda>r. getitem (heap s r) ''id'') rs"
    from that have "record_ids s' = take i ?ids @ drop (Suc i) ?ids"
      by (simp add: record_ids_def take_map drop_map)
    moreover from assms(1) that(1) have "distinct ?ids" by (simp add: unique_ids_def record_ids_def)
    ultimately show ?thesis by (simp only: unique_ids_def distinct_remove_nth)
  qed
  from assms(2) show ?thesis
  proof (cases rule: dbdelete_elim)
    case (no_write rs i)
    then show ?thesis by (intro step[of rs i]) simp_all
  next
    case (ok rs i)
    then show ?thesis by (intro step[of rs i]) simp_all
  qed (use assms(1) in simp_all)
qed

lemma unique_apply_op:
  assumes "list_of_string_ids s" "unique_ids s" "admissible s x"
  shows "unique_ids (snd (apply_op c s x))"
proof (cases x)
  case (Create item)
  with assms unique_create[of s item c "fst (dbcreate c s item)" "snd (dbcreate c s item)"]
  show ?thesis by simp
next
  case (Update ident item)
  with assms unique_update[of s ident item c "fst (dbupdate c s ident item)" "snd (dbupdate c s ident item)"]
  show ?thesis by simp
next
  case (Delete ident)
  with assms unique_delete[of s c ident "fst (dbdelete c s ident)" "snd (dbdelete c s ident)"]
  show ?thesis by simp
qed

lemma unique_run:
  "list_of_string_ids s \<Longrightarrow> unique_ids s \<Longrightarrow> careful c s ops \<Longrightarrow> unique_ids (run c s ops)"
  by (induction ops arbitrary: s) (simp_all add: inv_apply_op unique_apply_op)

text \<open>
  C7, as amended. Start from a store whose collection is the empty list and run any
  sequence of creates, updates and deletes, whatever each of them returns or raises.
  Every record of the resulting collection carries an \<open>id\<close> that is a string. No two
  records carry the same id provided that, at each step, a create brings an id whose
  string form no stored record carries and an update brings a record object that the
  collection does not already hold.
\<close>

theorem ids_of_reachable_collections:
  assumes "db s0 = PyList []"
  shows "string_ids (run c s0 ops) \<and> (careful c s0 ops \<longrightarrow> unique_ids (run c s0 ops))"
proof -
  from assms have i: "list_of_string_ids s0" and u: "unique_ids s0"
    by (simp_all add: list_of_string_ids_def string_ids_def unique_ids_def record_ids_def)
  from inv_run[OF i, of c ops] have "string_ids (run c s0 ops)"
    by (simp add: list_of_string_ids_def split: dbval.splits)
  with unique_run[OF i u] show ?thesis by blast
qed


theorem ids_of_reachable_collections_witness:
  "careful (sample_codec []) (sample_db\<lparr>db := PyList []\<rparr>)
     [Create 0, Create 1, Update (JStr ''1'') 2, Delete (JStr ''2''), Create 3]
   \<and> string_ids (run (sample_codec []) (sample_db\<lparr>db := PyList []\<rparr>)
     [Create 0, Create 1, Update (JStr ''1'') 2, Delete (JStr ''2''), Create 3])
   \<and> unique_ids (run (sample_codec []) (sample_db\<lparr>db := PyList []\<rparr>)
     [Create 0, Create 1, Update (JStr ''1'') 2, Delete (JStr ''2''), Create 3])"
proof -
  have e: "py_str (JInt 3) = ''3''" "py_str (JStr t) = t" for t
    by (simp_all add: py_str_def str_int_def str_nat.simps)
  have c: "careful (sample_codec []) (sample_db\<lparr>db := PyList []\<rparr>)
     [Create 0, Create 1, Update (JStr ''1'') 2, Delete (JStr ''2''), Create 3]"
    by (simp add: dbcreate_def dbupdate_def dbdelete_def scan_def dbwrite_def record_ids_def
        sample_db_def getitem_def setitem_def e Let_def)
  have d: "db (sample_db\<lparr>db := PyList []\<rparr>) = PyList []" by simp
  from ids_of_reachable_collections [OF d, of "sample_codec []"
      "[Create 0, Create 1, Update (JStr ''1'') 2, Delete (JStr ''2''), Create 3]"] c
  show ?thesis by blast
qed

text \<open>
  C7 as stated fails: \<open>dbcreate\<close> appends without looking at the ids already stored,
  so creating two records with the id 1 in the empty store leaves both in the collection.
\<close>

theorem duplicate_ids_counterexample:
  "db (sample_db\<lparr>db := PyList []\<rparr>) = PyList []
   \<and> db_value (run (sample_codec []) (sample_db\<lparr>db := PyList []\<rparr>) [Create 0, Create 4]) =
       JArr [JObj [(''id'', JStr ''1''), (''label'', JStr ''cat'')],
             JObj [(''id'', JStr ''1''), (''label'', JStr ''fox'')]]
   \<and> record_ids (run (sample_codec []) (sample_db\<lparr>db := PyList []\<rparr>) [Create 0, Create 4]) =
       [Inr (JStr ''1''), Inr (JStr ''1'')]
   \<and> \<not> unique_ids (run (sample_codec []) (sample_db\<lparr>db := PyList []\<rparr>) [Create 0, Create 4])"
  by (simp add: dbcreate_def dbwrite_def record_ids_def unique_ids_def db_value_def
      sample_db_def getitem_def setitem_def py_str_def Let_def)

end
